theory Spec2Isabelle
  imports Complex_Main "HOL-Library.Monad_Syntax"
begin

section \<open>JavaScript strings\<close>

text \<open>
  A JavaScript string is a sequence of UTF-16 code units; a code unit is modelled by its
  numeric value, an integer from 0 to 65535. The regular expressions of the parser carry
  no \<open>u\<close> flag, so they work on code units as well. \<open>lit\<close> turns an ASCII literal
  of the source into such a string.
\<close>

type_synonym ustring = "int list"

definition lit :: "string \<Rightarrow> ustring" where
  "lit s = map of_char s"

text \<open>
  The class \<open>\s\<close> of a regular expression and the characters removed by
  \<open>String.prototype.trim\<close> are the same set: WhiteSpace and LineTerminator of ECMAScript
  (TAB, LF, VT, FF, CR, SP, NBSP, U+1680, U+2000 to U+200A, LS, PS, U+202F, U+205F, U+3000,
  U+FEFF). The class \<open>\d\<close> is \<open>0\<close> to \<open>9\<close>; the dot matches every code unit but
  LF, CR, LS and PS.
\<close>

definition isWhiteSpace :: "int \<Rightarrow> bool" where
  "isWhiteSpace c = (c = 9 \<or> c = 10 \<or> c = 11 \<or> c = 12 \<or> c = 13 \<or> c = 32 \<or> c = 160
     \<or> c = 5760 \<or> (8192 \<le> c \<and> c \<le> 8202) \<or> c = 8232 \<or> c = 8233 \<or> c = 8239
     \<or> c = 8287 \<or> c = 12288 \<or> c = 65279)"

definition isDigit :: "int \<Rightarrow> bool" where
  "isDigit c = (48 \<le> c \<and> c \<le> 57)"

definition isLineTerminator :: "int \<Rightarrow> bool" where
  "isLineTerminator c = (c = 10 \<or> c = 13 \<or> c = 8232 \<or> c = 8233)"

fun startsWith :: "ustring \<Rightarrow> ustring \<Rightarrow> bool" where
  "startsWith s [] = True"
| "startsWith [] (n # ns) = False"
| "startsWith (c # cs) (n # ns) = (c = n \<and> startsWith cs ns)"

text \<open>
  \<open>s.includes(needle)\<close>: the needle occurs at some position of \<open>s\<close>. The
  name \<open>includes\<close> is a keyword of Isabelle.
\<close>

fun str_includes :: "ustring \<Rightarrow> ustring \<Rightarrow> bool" where
  "str_includes [] needle = (needle = [])"
| "str_includes (c # cs) needle = (startsWith (c # cs) needle \<or> str_includes cs needle)"

definition trim :: "ustring \<Rightarrow> ustring" where
  "trim s = rev (dropWhile isWhiteSpace (rev (dropWhile isWhiteSpace s)))"

text \<open>\<open>parts.join(sep)\<close>.\<close>

fun joinWith :: "ustring \<Rightarrow> ustring list \<Rightarrow> ustring" where
  "joinWith sep [] = []"
| "joinWith sep [s] = s"
| "joinWith sep (s # t # ss) = s @ sep @ joinWith sep (t # ss)"

section \<open>Data model\<close>

text \<open>
  Coordinates are JavaScript numbers; they are modelled as exact rationals, and the one
  non-finite value the parser writes, \<open>Number.POSITIVE_INFINITY\<close> in \<open>maxX\<close>, by a
  constructor of its own. The optional fields \<open>width\<close>, \<open>minX\<close> and \<open>maxX\<close> are
  options (\<open>None\<close> is \<open>undefined\<close>). The fields of a text item that the parser never
  reads (\<open>dir\<close>, \<open>transform\<close>, \<open>height\<close>, \<open>fontName\<close>) are left out.
\<close>

datatype xnum = Finite rat | PositiveInfinity

record TextItem =
  itemStr :: ustring
  itemX :: rat
  itemY :: rat
  itemWidth :: "rat option"

record ColumnInfo =
  colName :: ustring
  colX :: rat
  colWidth :: rat
  minX :: "rat option"
  maxX :: "xnum option"

record HeaderEntry =
  h_entryNo :: nat
  h_dateTime :: ustring
  h_description :: ustring
  h_referenceNo :: ustring

record NumericEntry =
  n_entryNo :: nat
  n_debit :: ustring
  n_credit :: ustring
  n_balance :: ustring

record Transaction =
  dateTime :: ustring
  description :: ustring
  referenceNo :: ustring
  debit :: ustring
  credit :: ustring
  balance :: ustring

text \<open>
  The fields of \<open>GCashPDFParser\<close> that the extraction reads and writes. The PDF bytes and
  the password only reach the PDF library, whose outcome is an argument of \<open>parse\<close>
  below; the debug output (files and console) is not modelled.
\<close>

record Parser =
  transactions :: "Transaction list"
  pageTexts :: "ustring list"
  columnPositions :: "ColumnInfo list"
  numericEntries :: "NumericEntry list"

definition newParser :: Parser where
  "newParser = \<lparr>transactions = [], pageTexts = [], columnPositions = [], numericEntries = []\<rparr>"

section \<open>Column model\<close>

fun findIndex :: "('a \<Rightarrow> bool) \<Rightarrow> 'a list \<Rightarrow> nat option" where
  "findIndex P [] = None"
| "findIndex P (a # as) = (if P a then Some 0 else map_option Suc (findIndex P as))"

text \<open>The predicate of the \<open>findIndex\<close> call that locates the header row.\<close>

definition isHeaderRowItem :: "TextItem \<Rightarrow> bool" where
  "isHeaderRowItem item =
     (str_includes (itemStr item) (lit ''Date and Time'')
      \<or> str_includes (itemStr item) (lit ''Reference No'')
      \<or> str_includes (itemStr item) (lit ''Debit'')
      \<or> str_includes (itemStr item) (lit ''Credit'')
      \<or> str_includes (itemStr item) (lit ''Balance''))"

definition headerNames :: "ustring list" where
  "headerNames = [lit ''Date and Time'', lit ''Description'', lit ''Reference No'',
     lit ''Debit'', lit ''Credit'', lit ''Balance'']"

definition headerItemsOf :: "TextItem list \<Rightarrow> nat \<Rightarrow> TextItem list" where
  "headerItemsOf items headerRowIndex =
     filter (\<lambda>item. \<bar>itemY item - itemY (items ! headerRowIndex)\<bar> < 2
               \<and> list_ex (\<lambda>header. str_includes (itemStr item) header) headerNames) items"

definition columnOfItem :: "TextItem \<Rightarrow> ColumnInfo" where
  "columnOfItem item =
     \<lparr>colName = trim (itemStr item), colX = itemX item,
      colWidth = (case itemWidth item of None \<Rightarrow> 0 | Some w \<Rightarrow> w),
      minX = None, maxX = None\<rparr>"

definition defaultColumn :: "string \<Rightarrow> rat \<Rightarrow> rat \<Rightarrow> ColumnInfo" where
  "defaultColumn n cx w = \<lparr>colName = lit n, colX = cx, colWidth = w, minX = None, maxX = None\<rparr>"

definition defaultPositions :: "ColumnInfo list" where
  "defaultPositions =
     [defaultColumn ''Date and Time'' 0 150, defaultColumn ''Description'' 150 250,
      defaultColumn ''Reference No'' 400 100, defaultColumn ''Debit'' 500 80,
      defaultColumn ''Credit'' 580 80, defaultColumn ''Balance'' 660 80]"

definition identifyColumnPositions :: "TextItem list \<Rightarrow> Parser \<Rightarrow> Parser" where
  "identifyColumnPositions items s =
     (case findIndex isHeaderRowItem items of
        Some headerRowIndex \<Rightarrow>
          s\<lparr>columnPositions := map columnOfItem (headerItemsOf items headerRowIndex)\<rparr>
      | None \<Rightarrow> s\<lparr>columnPositions := defaultPositions\<rparr>)"

text \<open>
  \<open>computeColumnBoundaries\<close>: the stable sort by \<open>x\<close>, the midpoints of neighbours, and
  the assignment of \<open>minX\<close> and \<open>maxX\<close> by index.
\<close>

definition boundariesOf :: "ColumnInfo list \<Rightarrow> rat list" where
  "boundariesOf cols =
     map (\<lambda>i. colX (cols ! i) + (colX (cols ! (i + 1)) - colX (cols ! i)) / 2)
       [0..<length cols - 1]"

definition assignBounds :: "ColumnInfo list \<Rightarrow> rat list \<Rightarrow> ColumnInfo list" where
  "assignBounds cols boundaries =
     map (\<lambda>idx. (cols ! idx)
            \<lparr>minX := Some (if idx = 0 then 0 else boundaries ! (idx - 1)),
             maxX := Some (if idx = length cols - 1 then PositiveInfinity
                           else Finite (boundaries ! idx))\<rparr>)
       [0..<length cols]"

definition boundedColumns :: "ColumnInfo list \<Rightarrow> ColumnInfo list" where
  "boundedColumns cols = (let sorted = sort_key colX cols in assignBounds sorted (boundariesOf sorted))"

definition computeColumnBoundaries :: "Parser \<Rightarrow> Parser" where
  "computeColumnBoundaries s = s\<lparr>columnPositions := boundedColumns (columnPositions s)\<rparr>"

section \<open>The date and time pattern\<close>

text \<open>
  \<open>/\d{4}-\d{2}-\d{2}\s+\d{1,2}:\d{2}\s+[AP]M/\<close>, matched at the head of a string; the
  result is the text after the match. Each piece returns the rest of the input. The two
  greedy quantifiers have one way to succeed only: \<open>\s+\<close> is followed by a digit or a
  letter, so it must take the whole run of white space, and \<open>\d{1,2}\<close> is followed by a
  colon, so it must take a second digit when there is one.
\<close>

fun digitsN :: "nat \<Rightarrow> ustring \<Rightarrow> ustring option" where
  "digitsN 0 s = Some s"
| "digitsN (Suc n) [] = None"
| "digitsN (Suc n) (c # cs) = (if isDigit c then digitsN n cs else None)"

fun spacesN :: "nat \<Rightarrow> ustring \<Rightarrow> ustring option" where
  "spacesN 0 s = Some s"
| "spacesN (Suc n) [] = None"
| "spacesN (Suc n) (c # cs) = (if isWhiteSpace c then spacesN n cs else None)"

fun oneOf :: "ustring \<Rightarrow> ustring \<Rightarrow> ustring option" where
  "oneOf cls [] = None"
| "oneOf cls (c # cs) = (if c \<in> set cls then Some cs else None)"

fun spacesPlus :: "ustring \<Rightarrow> ustring option" where
  "spacesPlus [] = None"
| "spacesPlus (c # cs) = (if isWhiteSpace c then Some (dropWhile isWhiteSpace cs) else None)"

fun digits12 :: "ustring \<Rightarrow> ustring option" where
  "digits12 [] = None"
| "digits12 [c] = (if isDigit c then Some [] else None)"
| "digits12 (c # d # cs) =
     (if isDigit c then (if isDigit d then Some cs else Some (d # cs)) else None)"

definition matchDateTime :: "ustring \<Rightarrow> ustring option" where
  "matchDateTime s =
     digitsN 4 s \<bind> oneOf (lit ''-'') \<bind> digitsN 2 \<bind> oneOf (lit ''-'') \<bind> digitsN 2
       \<bind> spacesPlus \<bind> digits12 \<bind> oneOf (lit '':'') \<bind> digitsN 2
       \<bind> spacesPlus \<bind> oneOf (lit ''AP'') \<bind> oneOf (lit ''M'')"

text \<open>\<open>dateTimePattern.test(lineText)\<close>: a match at some position.\<close>

fun dateTimeTest :: "ustring \<Rightarrow> bool" where
  "dateTimeTest [] = False"
| "dateTimeTest (c # cs) = (matchDateTime (c # cs) \<noteq> None \<or> dateTimeTest cs)"

section \<open>Row clustering and numeric fields\<close>

text \<open>
  One step of the clustering loop: the item joins the first cluster whose first member
  lies within 5 units of its \<open>y\<close>, or starts a new cluster at the end. A cluster is
  created with one member and never shrinks, so the empty case is never reached.
\<close>

fun addToCluster :: "TextItem \<Rightarrow> TextItem list list \<Rightarrow> TextItem list list" where
  "addToCluster item [] = [[item]]"
| "addToCluster item (cluster # clusters) =
     (case cluster of
        [] \<Rightarrow> cluster # addToCluster item clusters
      | first # _ \<Rightarrow>
          if \<bar>itemY item - itemY first\<bar> \<le> 5 then (cluster @ [item]) # clusters
          else cluster # addToCluster item clusters)"

text \<open>
  The items sorted by \<open>y\<close> descending (a stable sort, as \<open>Array.prototype.sort\<close> is),
  clustered, each cluster sorted by \<open>x\<close> ascending.
\<close>

definition clustersOf :: "TextItem list \<Rightarrow> TextItem list list" where
  "clustersOf items =
     map (sort_key itemX)
       (foldl (\<lambda>clusters item. addToCluster item clusters) []
          (sort_key (\<lambda>item. - itemY item) items))"

text \<open>
  \<open>debitColumn?.minX || 500\<close>: the operator \<open>||\<close> takes its right operand when the left
  one is \<open>undefined\<close> and also when it is the number 0.
\<close>

definition debitXOf :: "ColumnInfo list \<Rightarrow> rat" where
  "debitXOf cols =
     (case find (\<lambda>col. colName col = lit ''Debit'') cols of
        None \<Rightarrow> 500
      | Some debitColumn \<Rightarrow>
          (case minX debitColumn of
             None \<Rightarrow> 500
           | Some m \<Rightarrow> if m = 0 then 500 else m))"

definition frontItemsOf :: "rat \<Rightarrow> TextItem list \<Rightarrow> TextItem list" where
  "frontItemsOf debitX line = filter (\<lambda>item. itemX item < debitX) line"

definition backItemsOf :: "rat \<Rightarrow> TextItem list \<Rightarrow> TextItem list" where
  "backItemsOf debitX line = filter (\<lambda>item. \<not> itemX item < debitX) line"

text \<open>
  \<open>xPos >= col.minX && xPos < col.maxX\<close>; a comparison with \<open>undefined\<close> is false.
\<close>

definition inColumn :: "rat \<Rightarrow> ColumnInfo \<Rightarrow> bool" where
  "inColumn xPos col =
     (case minX col of
        None \<Rightarrow> False
      | Some lo \<Rightarrow>
          (case maxX col of
             None \<Rightarrow> False
           | Some PositiveInfinity \<Rightarrow> lo \<le> xPos
           | Some (Finite hi) \<Rightarrow> lo \<le> xPos \<and> xPos < hi))"

definition numericNames :: "ustring list" where
  "numericNames = [lit ''Debit'', lit ''Credit'', lit ''Balance'']"

definition columnAt :: "ColumnInfo list \<Rightarrow> rat \<Rightarrow> ColumnInfo option" where
  "columnAt cols xPos =
     find (inColumn xPos) (filter (\<lambda>col. colName col \<in> set numericNames) cols)"

text \<open>\<open>colValues\<close> is the dictionary from a column name to the texts collected for it.\<close>

definition emptyColValues :: "ustring \<rightharpoonup> ustring list" where
  "emptyColValues = [lit ''Debit'' \<mapsto> [], lit ''Credit'' \<mapsto> [], lit ''Balance'' \<mapsto> []]"

definition assignItem ::
  "ColumnInfo list \<Rightarrow> (ustring \<rightharpoonup> ustring list) \<Rightarrow> TextItem \<Rightarrow> (ustring \<rightharpoonup> ustring list)" where
  "assignItem cols colValues item =
     (case columnAt cols (itemX item) of
        None \<Rightarrow> colValues
      | Some col \<Rightarrow>
          (case colValues (colName col) of
             None \<Rightarrow> colValues
           | Some vs \<Rightarrow> colValues(colName col \<mapsto> vs @ [itemStr item])))"

definition fieldStr :: "(ustring \<rightharpoonup> ustring list) \<Rightarrow> string \<Rightarrow> ustring" where
  "fieldStr colValues n =
     trim (joinWith (lit '' '') (case colValues (lit n) of None \<Rightarrow> [] | Some vs \<Rightarrow> vs))"

definition lineTextOf :: "TextItem list \<Rightarrow> ustring" where
  "lineTextOf line = joinWith (lit '' '') (map itemStr line)"

definition isSummaryLine :: "ustring \<Rightarrow> bool" where
  "isSummaryLine lineText =
     (str_includes lineText (lit ''Date and Time'')
      \<or> str_includes lineText (lit ''STARTING BALANCE'')
      \<or> str_includes lineText (lit ''ENDING BALANCE'')
      \<or> str_includes lineText (lit ''Total Debit'')
      \<or> str_includes lineText (lit ''Total Credit'')
      \<or> trim lineText = [])"

text \<open>
  The body of the loop over the clusters, on the pair of \<open>numericEntryCount\<close> and
  \<open>this.numericEntries\<close>; the two \<open>continue\<close> statements return the pair unchanged.
\<close>

definition lineStep ::
  "ColumnInfo list \<Rightarrow> TextItem list \<Rightarrow> nat \<times> NumericEntry list \<Rightarrow> nat \<times> NumericEntry list" where
  "lineStep cols line st =
     (let lineText = lineTextOf line in
      if isSummaryLine lineText then st
      else if \<not> dateTimeTest lineText then st
      else
        let backItems = backItemsOf (debitXOf cols) line;
            colValues = foldl (assignItem cols) emptyColValues backItems;
            debitStr = fieldStr colValues ''Debit'';
            creditStr = fieldStr colValues ''Credit'';
            balanceStr = fieldStr colValues ''Balance''
        in if debitStr \<noteq> [] \<or> creditStr \<noteq> [] \<or> balanceStr \<noteq> []
           then (fst st + 1,
                 snd st @ [\<lparr>n_entryNo = fst st + 1, n_debit = debitStr,
                             n_credit = creditStr, n_balance = balanceStr\<rparr>])
           else st)"

definition extractNumericEntriesFromLineItems :: "TextItem list \<Rightarrow> Parser \<Rightarrow> Parser" where
  "extractNumericEntriesFromLineItems items s =
     s\<lparr>numericEntries :=
         snd (foldl (\<lambda>st line. lineStep (columnPositions s) line st)
                (length (numericEntries s), numericEntries s) (clustersOf items))\<rparr>"

section \<open>Header fields\<close>

text \<open>
  \<open>/(\d{4}-\d{2}-\d{2}\s+\d{1,2}:\d{2}\s+[AP]M)\s{3}(.+?)\s{3}(\d{13})/g\<close>.
  \<open>matchTail\<close> is the end of the pattern, \<open>\s{3}(\d{13})\<close>: it returns the third group
  and the text after the match. \<open>lazyAny\<close> is the lazy group \<open>(.+?)\<close> with that end
  after it: it takes one more character that is no line terminator, tries the end of the
  pattern, and goes on to a longer span only when the end does not match.
\<close>

definition matchTail :: "ustring \<Rightarrow> (ustring \<times> ustring) option" where
  "matchTail s =
     (case spacesN 3 s of
        None \<Rightarrow> None
      | Some r \<Rightarrow> (case digitsN 13 r of None \<Rightarrow> None | Some rest \<Rightarrow> Some (take 13 r, rest)))"

fun lazyAny :: "ustring \<Rightarrow> ustring \<Rightarrow> (ustring \<times> ustring \<times> ustring) option" where
  "lazyAny acc [] = None"
| "lazyAny acc (c # cs) =
     (if isLineTerminator c then None
      else (case matchTail cs of
              Some (g3, rest) \<Rightarrow> Some (acc @ [c], g3, rest)
            | None \<Rightarrow> lazyAny (acc @ [c]) cs))"

text \<open>A match at the head of the text: the three groups and the text after the match.\<close>

definition matchHeader :: "ustring \<Rightarrow> (ustring \<times> ustring \<times> ustring \<times> ustring) option" where
  "matchHeader s =
     (case matchDateTime s of
        None \<Rightarrow> None
      | Some r1 \<Rightarrow>
          (case spacesN 3 r1 of
             None \<Rightarrow> None
           | Some r2 \<Rightarrow>
               (case lazyAny [] r2 of
                  None \<Rightarrow> None
                | Some (g2, g3, rest) \<Rightarrow> Some (take (length s - length r1) s, g2, g3, rest))))"

text \<open>
  \<open>pattern.exec\<close> on the text from \<open>lastIndex\<close> on: the leftmost position with a match.
\<close>

fun execHeader :: "ustring \<Rightarrow> (ustring \<times> ustring \<times> ustring \<times> ustring) option" where
  "execHeader [] = None"
| "execHeader (c # cs) =
     (case matchHeader (c # cs) of Some m \<Rightarrow> Some m | None \<Rightarrow> execHeader cs)"

subsection \<open>Every match consumes input\<close>

lemma digitsN_length: "digitsN n s = Some r \<Longrightarrow> length s = n + length r"
  by (induction n s rule: digitsN.induct) (auto split: if_splits)

lemma spacesN_length: "spacesN n s = Some r \<Longrightarrow> length s = n + length r"
  by (induction n s rule: spacesN.induct) (auto split: if_splits)

lemma oneOf_length: "oneOf cls s = Some r \<Longrightarrow> length s = Suc (length r)"
  by (cases s) (auto split: if_splits)

lemma spacesPlus_length: "spacesPlus s = Some r \<Longrightarrow> length r < length s"
  by (cases s) (auto split: if_splits simp: less_Suc_eq_le length_dropWhile_le)

lemma digits12_length: "digits12 s = Some r \<Longrightarrow> length r < length s"
  by (induction s rule: digits12.induct) (auto split: if_splits)

lemma matchDateTime_length: "matchDateTime s = Some r \<Longrightarrow> length r < length s"
  unfolding matchDateTime_def
  by (fastforce simp: bind_eq_Some_conv dest!: digitsN_length oneOf_length spacesPlus_length digits12_length)

lemma matchTail_length: "matchTail s = Some (g, rest) \<Longrightarrow> length s = 16 + length rest"
  unfolding matchTail_def
  by (auto split: option.splits dest!: digitsN_length spacesN_length)

lemma lazyAny_length: "lazyAny acc s = Some (g2, g3, rest) \<Longrightarrow> length rest < length s"
proof (induction acc s arbitrary: g2 rule: lazyAny.induct)
  case (1 acc)
  then show ?case by simp
next
  case (2 acc c cs)
  show ?case
  proof (cases "matchTail cs")
    case None
    with 2 show ?thesis by (auto split: if_splits)
  next
    case (Some p)
    with 2 show ?thesis by (cases p) (auto split: if_splits dest: matchTail_length)
  qed
qed

lemma matchHeader_length: "matchHeader s = Some (g1, g2, g3, rest) \<Longrightarrow> length rest < length s"
  unfolding matchHeader_def
  by (fastforce split: option.splits dest!: matchDateTime_length spacesN_length lazyAny_length)

lemma execHeader_length: "execHeader s = Some (g1, g2, g3, rest) \<Longrightarrow> length rest < length s"
  by (induction s) (fastforce split: option.splits dest!: matchHeader_length)+

text \<open>
  The \<open>while\<close> loop around \<open>pattern.exec\<close>: every match is longer than the empty
  string and moves \<open>lastIndex\<close> to its end, so the text left to scan gets shorter.
\<close>

function headerLoop :: "ustring \<Rightarrow> nat \<Rightarrow> HeaderEntry list \<Rightarrow> HeaderEntry list" where
  "headerLoop text entryNo headerEntries =
     (case execHeader text of
        None \<Rightarrow> headerEntries
      | Some (g1, g2, g3, rest) \<Rightarrow>
          headerLoop rest (entryNo + 1)
            (headerEntries @ [\<lparr>h_entryNo = entryNo + 1, h_dateTime = trim g1,
                                h_description = trim g2, h_referenceNo = trim g3\<rparr>]))"
  by pat_completeness auto
termination
  by (relation "measure (\<lambda>(text, entryNo, headerEntries). length text)")
     (auto dest: execHeader_length)

declare headerLoop.simps [simp del]


definition extractHeaderEntriesFromPageTexts :: "Parser \<Rightarrow> HeaderEntry list" where
  "extractHeaderEntriesFromPageTexts s = headerLoop (joinWith [10] (pageTexts s)) 0 []"

section \<open>The parse operation\<close>

text \<open>
  The PDF library is outside the program. What it delivers is an argument: the load of
  the document fails with an error, or gives the pages, and the decoding of each page
  (\<open>getPage\<close> and \<open>getTextContent\<close>) fails with an error or gives the text items of the
  page. Errors are represented by their text.
\<close>

datatype pageResult = PageError ustring | PageItems "TextItem list"

datatype loadResult = LoadError ustring | Document "pageResult list"

datatype error = ParseFailed ustring

definition wrapError :: "ustring \<Rightarrow> error" where
  "wrapError cause = ParseFailed (lit ''Failed to parse PDF: '' @ cause)"

definition processPage :: "nat \<Rightarrow> TextItem list \<Rightarrow> Parser \<Rightarrow> Parser" where
  "processPage i items s =
     (let s1 = (if i = 1 then computeColumnBoundaries (identifyColumnPositions items s) else s);
          pageText = joinWith (lit '' '') (map itemStr items);
          s2 = s1\<lparr>pageTexts := pageTexts s1 @ [pageText]\<rparr>
      in extractNumericEntriesFromLineItems items s2)"

text \<open>
  The loop over the pages; a page that fails to decode raises, and the fields keep what
  the earlier pages wrote.
\<close>

fun pageLoop :: "nat \<Rightarrow> pageResult list \<Rightarrow> Parser \<Rightarrow> ustring option \<times> Parser" where
  "pageLoop i [] s = (None, s)"
| "pageLoop i (PageError cause # pages) s = (Some cause, s)"
| "pageLoop i (PageItems items # pages) s = pageLoop (i + 1) pages (processPage i items s)"

definition mergeEntries :: "HeaderEntry list \<Rightarrow> NumericEntry list \<Rightarrow> Transaction list" where
  "mergeEntries headerEntries numEntries =
     map (\<lambda>i. \<lparr>dateTime = h_dateTime (headerEntries ! i),
                description = h_description (headerEntries ! i),
                referenceNo = h_referenceNo (headerEntries ! i),
                debit = n_debit (numEntries ! i),
                credit = n_credit (numEntries ! i),
                balance = n_balance (numEntries ! i)\<rparr>)
       [0..<min (length headerEntries) (length numEntries)]"

text \<open>
  \<open>parse\<close> returns the error or the transaction list, and the parser after the call.
  The three accumulators are reset after the document has loaded, not before.
\<close>

definition parse :: "Parser \<Rightarrow> loadResult \<Rightarrow> (error + Transaction list) \<times> Parser" where
  "parse s doc =
     (case doc of
        LoadError cause \<Rightarrow> (Inl (wrapError cause), s)
      | Document pages \<Rightarrow>
          (case pageLoop 1 pages (s\<lparr>transactions := [], pageTexts := [], numericEntries := []\<rparr>) of
             (Some cause, s1) \<Rightarrow> (Inl (wrapError cause), s1)
           | (None, s1) \<Rightarrow>
               (let mergedTransactions =
                      mergeEntries (extractHeaderEntriesFromPageTexts s1) (numericEntries s1)
                in (Inr mergedTransactions, s1\<lparr>transactions := mergedTransactions\<rparr>))))"

section \<open>Accessors and CSV\<close>

definition getTransactions :: "Parser \<Rightarrow> Transaction list" where
  "getTransactions s = transactions s"

definition getPageTexts :: "Parser \<Rightarrow> ustring list" where
  "getPageTexts s = pageTexts s"

text \<open>Code unit 34 is the double quote, 10 the line feed.\<close>

definition csvHeader :: ustring where
  "csvHeader = lit ''Date and Time,Description,Reference No,Debit,Credit,Balance''"

definition csvLine :: "Transaction \<Rightarrow> ustring" where
  "csvLine t =
     [34] @ dateTime t @ [34] @ lit '','' @ [34] @ description t @ [34] @ lit '','' @
     [34] @ referenceNo t @ [34] @ lit '','' @ [34] @ debit t @ [34] @ lit '','' @
     [34] @ credit t @ [34] @ lit '','' @ [34] @ balance t @ [34]"

definition toCSV :: "Parser \<Rightarrow> ustring" where
  "toCSV s =
     (if length (transactions s) = 0 then lit ''No transactions found''
      else trim (foldl (\<lambda>csv t. csv @ csvLine t @ [10]) (csvHeader @ [10]) (transactions s)))"

section \<open>Parsers that have not parsed successfully yet\<close>

text \<open>
  The parsers that a caller can hold after the constructor and any number of calls of
  \<open>parse\<close> that all failed.
\<close>

inductive beforeSuccess :: "Parser \<Rightarrow> bool" where
  constructed: "beforeSuccess newParser"
| failedParse: "beforeSuccess s \<Longrightarrow> parse s doc = (Inl e, s') \<Longrightarrow> beforeSuccess s'"


section \<open>Notions of the specification\<close>

text \<open>
  The rows that the specification says are not transaction lines: the joined text holds
  one of the five markers, or is blank, or has no match of the date and time pattern.
\<close>

definition rowRejected :: "ustring \<Rightarrow> bool" where
  "rowRejected lineText =
     (str_includes lineText (lit ''Date and Time'')
      \<or> str_includes lineText (lit ''STARTING BALANCE'')
      \<or> str_includes lineText (lit ''ENDING BALANCE'')
      \<or> str_includes lineText (lit ''Total Debit'')
      \<or> str_includes lineText (lit ''Total Credit'')
      \<or> trim lineText = []
      \<or> \<not> dateTimeTest lineText)"

text \<open>
  The loop state of the numeric extractor counts from one: the counter is the number of
  entries, and the ordinals of the entries are 1, 2, 3 and so on without a gap.
\<close>

definition countsFrom1 :: "nat \<times> NumericEntry list \<Rightarrow> bool" where
  "countsFrom1 st = (fst st = length (snd st) \<and> map n_entryNo (snd st) = [1..<Suc (length (snd st))])"

text \<open>
  A text holds the separator and a reference number when, at some position, three white
  space characters are followed at once by thirteen digits: the shape \<open>\s{3}\d{13}\<close>
  that ends a match of the header pattern.
\<close>

fun hasSeparatorAndReference :: "ustring \<Rightarrow> bool" where
  "hasSeparatorAndReference [] = False"
| "hasSeparatorAndReference (c # cs) =
     (matchTail (c # cs) \<noteq> None \<or> hasSeparatorAndReference cs)"


section \<open>Sample inputs\<close>

text \<open>Concrete pages and records on which the theorems below are instantiated.\<close>

definition textItem :: "string \<Rightarrow> rat \<Rightarrow> rat \<Rightarrow> TextItem" where
  "textItem t px py = \<lparr>itemStr = lit t, itemX = px, itemY = py, itemWidth = None\<rparr>"

definition samplePage :: "TextItem list" where
  "samplePage =
     [textItem ''2024-01-15 10:30 AM'' 10 650, textItem '' '' 140 650,
      textItem ''Pay'' 150 650, textItem '' '' 390 650,
      textItem ''1234567890123'' 400 650, textItem ''5.00'' 500 650]"

definition sampleTransaction :: Transaction where
  "sampleTransaction =
     \<lparr>dateTime = lit ''2024-01-15 10:30 AM'', description = lit ''Pay'',
      referenceNo = lit ''1234567890123'', debit = lit ''5.00'', credit = [], balance = []\<rparr>"

definition failingDocument :: loadResult where
  "failingDocument = Document [PageItems samplePage, PageError (lit ''bad page'')]"

definition startingBalanceRow :: "TextItem list" where
  "startingBalanceRow =
     [textItem ''STARTING BALANCE'' 10 650, textItem ''2024-01-15 10:30 AM'' 150 650,
      textItem ''100.00'' 660 650]"

definition datedRow :: "TextItem list" where
  "datedRow = [textItem ''2024-01-15 10:30 AM'' 150 650, textItem ''100.00'' 660 650]"

definition descriptionItem :: TextItem where
  "descriptionItem = textItem ''Description'' 150 700"

definition debitItem :: TextItem where
  "debitItem = textItem ''Debit'' 400 650"

definition debitFirstPage :: "TextItem list" where
  "debitFirstPage =
     [textItem ''Debit'' 100 700, textItem ''Credit'' 200 700, textItem ''Balance'' 300 700,
      textItem ''2024-01-15 10:30 AM'' 10 650, textItem ''500.00'' 110 650,
      textItem ''1200.50'' 310 650]"

definition debitFirstColumns :: "ColumnInfo list" where
  "debitFirstColumns =
     columnPositions (computeColumnBoundaries (identifyColumnPositions debitFirstPage newParser))"

definition debitFirstRow :: "TextItem list" where
  "debitFirstRow =
     [textItem ''2024-01-15 10:30 AM'' 10 650, textItem ''500.00'' 110 650,
      textItem ''1200.50'' 310 650]"

definition spacedPage :: "TextItem list" where
  "spacedPage =
     [textItem ''2024-01-15 10:30 AM'' 10 650, textItem '' '' 140 650,
      textItem ''Sent to      Juan'' 150 650, textItem '' '' 390 650,
      textItem ''1234567890123'' 400 650, textItem ''5.00'' 500 650]"

definition spacedTransaction :: Transaction where
  "spacedTransaction =
     \<lparr>dateTime = lit ''2024-01-15 10:30 AM'', description = lit ''Sent to      Juan'',
      referenceNo = lit ''1234567890123'', debit = lit ''5.00'', credit = [], balance = []\<rparr>"


section \<open>Basic facts about the operations\<close>

text \<open>Which fields each operation leaves alone, and the two equations of the header loop.\<close>

lemma identify_fields [simp]:
  "transactions (identifyColumnPositions items s) = transactions s"
  "pageTexts (identifyColumnPositions items s) = pageTexts s"
  "numericEntries (identifyColumnPositions items s) = numericEntries s"
  by (simp_all add: identifyColumnPositions_def split: option.splits)

lemma compute_fields [simp]:
  "transactions (computeColumnBoundaries s) = transactions s"
  "pageTexts (computeColumnBoundaries s) = pageTexts s"
  "numericEntries (computeColumnBoundaries s) = numericEntries s"
  by (simp_all add: computeColumnBoundaries_def)

lemma extractNumeric_fields [simp]:
  "transactions (extractNumericEntriesFromLineItems items s) = transactions s"
  "pageTexts (extractNumericEntriesFromLineItems items s) = pageTexts s"
  "columnPositions (extractNumericEntriesFromLineItems items s) = columnPositions s"
  by (simp_all add: extractNumericEntriesFromLineItems_def)

lemma processPage_transactions [simp]:
  "transactions (processPage i items s) = transactions s"
  by (simp add: processPage_def Let_def)

lemma pageLoop_transactions:
  "transactions (snd (pageLoop i pages s)) = transactions s"
  by (induction i pages s rule: pageLoop.induct) simp_all


lemma extractHeader_transactions_update [simp]:
  "extractHeaderEntriesFromPageTexts (s\<lparr>transactions := t\<rparr>) = extractHeaderEntriesFromPageTexts s"
  by (simp add: extractHeaderEntriesFromPageTexts_def)

lemma parse_LoadError [simp]:
  "parse s (LoadError cause) = (Inl (wrapError cause), s)"
  by (simp add: parse_def)

lemma parse_Document_fail:
  "pageLoop 1 pages (s\<lparr>transactions := [], pageTexts := [], numericEntries := []\<rparr>) = (Some cause, s1)
   \<Longrightarrow> parse s (Document pages) = (Inl (wrapError cause), s1)"
  by (simp add: parse_def)

lemma parse_Document_ok:
  "pageLoop 1 pages (s\<lparr>transactions := [], pageTexts := [], numericEntries := []\<rparr>) = (None, s1)
   \<Longrightarrow> parse s (Document pages) =
         (Inr (mergeEntries (extractHeaderEntriesFromPageTexts s1) (numericEntries s1)),
          s1\<lparr>transactions := mergeEntries (extractHeaderEntriesFromPageTexts s1) (numericEntries s1)\<rparr>)"
  by (simp add: parse_def Let_def)

lemma parse_success:
  assumes "fst (parse s doc) = Inr txs"
  shows "txs = mergeEntries (extractHeaderEntriesFromPageTexts (snd (parse s doc)))
                 (numericEntries (snd (parse s doc)))"
proof (cases doc)
  case (LoadError cause)
  with assms show ?thesis by simp
next
  case (Document pages)
  obtain r s1 where run:
    "pageLoop 1 pages (s\<lparr>transactions := [], pageTexts := [], numericEntries := []\<rparr>) = (r, s1)"
    by (cases "pageLoop 1 pages (s\<lparr>transactions := [], pageTexts := [], numericEntries := []\<rparr>)")
  show ?thesis
  proof (cases r)
    case None
    with run Document assms show ?thesis by (simp add: parse_Document_ok)
  next
    case (Some cause)
    with run Document assms show ?thesis by (simp add: parse_Document_fail)
  qed
qed

lemma mergeEntries_length:
  "length (mergeEntries hs ns) = min (length hs) (length ns)"
  by (simp add: mergeEntries_def)

lemma mergeEntries_nth:
  "i < min (length hs) (length ns) \<Longrightarrow>
   mergeEntries hs ns ! i =
     \<lparr>dateTime = h_dateTime (hs ! i), description = h_description (hs ! i),
      referenceNo = h_referenceNo (hs ! i), debit = n_debit (ns ! i),
      credit = n_credit (ns ! i), balance = n_balance (ns ! i)\<rparr>"
  by (simp add: mergeEntries_def)

lemma headerLoop_None:
  "execHeader buf = None \<Longrightarrow> headerLoop buf n acc = acc"
  by (subst headerLoop.simps) simp

lemma headerLoop_Some:
  "execHeader buf = Some (g1, g2, g3, rest) \<Longrightarrow>
   headerLoop buf n acc =
     headerLoop rest (n + 1)
       (acc @ [\<lparr>h_entryNo = n + 1, h_dateTime = trim g1,
                  h_description = trim g2, h_referenceNo = trim g3\<rparr>])"
  by (subst headerLoop.simps) simp


section \<open>Merging by position\<close>

text \<open>
  Claim C1. When \<open>parse\<close> returns a transaction list, its length is the minimum of the
  number of header entries and the number of numeric entries that the call extracted, and
  the transaction at each position takes \<open>dateTime\<close>, \<open>description\<close> and
  \<open>referenceNo\<close> from the header entry at that position and \<open>debit\<close>,
  \<open>credit\<close> and \<open>balance\<close> from the numeric entry at that position.
\<close>

theorem parse_pairs_by_position:
  assumes "fst (parse s doc) = Inr txs"
  shows "length txs = min (length (extractHeaderEntriesFromPageTexts (snd (parse s doc))))
                          (length (numericEntries (snd (parse s doc))))
       \<and> (\<forall>i < length txs.
            dateTime (txs ! i) = h_dateTime (extractHeaderEntriesFromPageTexts (snd (parse s doc)) ! i)
          \<and> description (txs ! i) = h_description (extractHeaderEntriesFromPageTexts (snd (parse s doc)) ! i)
          \<and> referenceNo (txs ! i) = h_referenceNo (extractHeaderEntriesFromPageTexts (snd (parse s doc)) ! i)
          \<and> debit (txs ! i) = n_debit (numericEntries (snd (parse s doc)) ! i)
          \<and> credit (txs ! i) = n_credit (numericEntries (snd (parse s doc)) ! i)
          \<and> balance (txs ! i) = n_balance (numericEntries (snd (parse s doc)) ! i))"
proof -
  let ?hs = "extractHeaderEntriesFromPageTexts (snd (parse s doc))"
  let ?ns = "numericEntries (snd (parse s doc))"
  have eq: "txs = mergeEntries ?hs ?ns" using parse_success [OF assms] .
  have len: "length txs = min (length ?hs) (length ?ns)"
    by (subst eq) (rule mergeEntries_length)
  have "\<And>i. i < length txs \<Longrightarrow> txs ! i =
     \<lparr>dateTime = h_dateTime (?hs ! i), description = h_description (?hs ! i),
      referenceNo = h_referenceNo (?hs ! i), debit = n_debit (?ns ! i),
      credit = n_credit (?ns ! i), balance = n_balance (?ns ! i)\<rparr>"
    using len eq mergeEntries_nth [of _ ?hs ?ns] by metis
  with len show ?thesis by simp
qed



theorem parse_pairs_by_position_witness:
  "fst (parse newParser (Document [PageItems samplePage])) = Inr [sampleTransaction]
   \<and> length (extractHeaderEntriesFromPageTexts (snd (parse newParser (Document [PageItems samplePage])))) = 1
   \<and> length (numericEntries (snd (parse newParser (Document [PageItems samplePage])))) = 1
   \<and> dateTime sampleTransaction =
       h_dateTime (extractHeaderEntriesFromPageTexts (snd (parse newParser (Document [PageItems samplePage]))) ! 0)
   \<and> debit sampleTransaction =
       n_debit (numericEntries (snd (parse newParser (Document [PageItems samplePage]))) ! 0)"
proof -
  have run: "fst (parse newParser (Document [PageItems samplePage])) = Inr [sampleTransaction]"
    by code_simp
  have h: "length (extractHeaderEntriesFromPageTexts (snd (parse newParser (Document [PageItems samplePage])))) = 1"
    by code_simp
  have n: "length (numericEntries (snd (parse newParser (Document [PageItems samplePage])))) = 1"
    by code_simp
  from parse_pairs_by_position [OF run] run h n show ?thesis by simp
qed


section \<open>Row admission\<close>

lemma lineStep_rejected:
  "rowRejected (lineTextOf line) \<Longrightarrow> lineStep cols line st = st"
  by (auto simp: lineStep_def rowRejected_def isSummaryLine_def Let_def)

lemma foldl_lineStep_filter:
  "foldl (\<lambda>st line. lineStep cols line st) st clusters =
   foldl (\<lambda>st line. lineStep cols line st) st
     (filter (\<lambda>line. \<not> rowRejected (lineTextOf line)) clusters)"
  by (induction clusters arbitrary: st) (simp_all add: lineStep_rejected)

text \<open>
  Claim C3. A clustered row whose joined text holds one of the markers
  \<open>Date and Time\<close>, \<open>STARTING BALANCE\<close>, \<open>ENDING BALANCE\<close>,
  \<open>Total Debit\<close>, \<open>Total Credit\<close>, or is blank, or has no match of the date and
  time pattern, leaves the counter and the numeric entries as they were; the numeric
  entries of a page are those of its other rows. The instance below is a row with
  \<open>STARTING BALANCE\<close> and a valid date and time, which emits nothing, while the same
  row without the marker emits an entry.
\<close>

theorem rejected_row_emits_nothing:
  "(rowRejected (lineTextOf line) \<longrightarrow> lineStep cols line st = st)
   \<and> numericEntries (extractNumericEntriesFromLineItems items s) =
       snd (foldl (\<lambda>st line. lineStep (columnPositions s) line st)
              (length (numericEntries s), numericEntries s)
              (filter (\<lambda>line. \<not> rowRejected (lineTextOf line)) (clustersOf items)))"
  using foldl_lineStep_filter [of "columnPositions s"]
  by (simp add: lineStep_rejected extractNumericEntriesFromLineItems_def)

theorem rejected_row_emits_nothing_witness:
  "str_includes (lineTextOf startingBalanceRow) (lit ''STARTING BALANCE'')
   \<and> dateTimeTest (lineTextOf startingBalanceRow)
   \<and> lineStep (boundedColumns defaultPositions) startingBalanceRow (0, []) = (0, [])
   \<and> lineStep (boundedColumns defaultPositions) datedRow (0, []) =
       (1, [\<lparr>n_entryNo = 1, n_debit = [], n_credit = [], n_balance = lit ''100.00''\<rparr>])"
proof -
  have a: "str_includes (lineTextOf startingBalanceRow) (lit ''STARTING BALANCE'')"
    by code_simp
  have b: "dateTimeTest (lineTextOf startingBalanceRow)"
    by code_simp
  have c: "lineStep (boundedColumns defaultPositions) datedRow (0, []) =
       (1, [\<lparr>n_entryNo = 1, n_debit = [], n_credit = [], n_balance = lit ''100.00''\<rparr>])"
    by code_simp
  from a have "rowRejected (lineTextOf startingBalanceRow)"
    by (simp add: rowRejected_def)
  with rejected_row_emits_nothing [of startingBalanceRow "boundedColumns defaultPositions" "(0, [])"]
    a b c show ?thesis by simp
qed


section \<open>Column boundaries\<close>














section \<open>Header row detection\<close>

lemma findIndex_None: "findIndex P xs = None \<longleftrightarrow> (\<forall>a \<in> set xs. \<not> P a)"
  by (induction xs) auto

lemma findIndex_Some:
  "findIndex P xs = Some i \<Longrightarrow> i < length xs \<and> P (xs ! i) \<and> (\<forall>j<i. \<not> P (xs ! j))"
proof (induction xs arbitrary: i)
  case Nil
  then show ?case by simp
next
  case (Cons a xs)
  show ?case
  proof (cases "P a")
    case True
    with Cons.prems show ?thesis by simp
  next
    case False
    with Cons.prems obtain k where k: "findIndex P xs = Some k" and i: "i = Suc k"
      by auto
    from Cons.IH [OF k] False i show ?thesis
      by (auto simp: nth_Cons split: nat.splits)
  qed
qed

text \<open>
  Claim C4 as stated fails. The search for the header row tests five names and leaves
  \<open>Description\<close> out: a page whose only fragment is \<open>Description\<close> holds one of
  the six names and still gets the fallback columns, and on a page with the fragments
  \<open>Description\<close> and \<open>Debit\<close>, in this order, the second one is selected.
\<close>

theorem description_alone_gets_fallback:
  "str_includes (itemStr descriptionItem) (lit ''Description'')
   \<and> columnPositions (identifyColumnPositions [descriptionItem] newParser) = defaultPositions
   \<and> findIndex isHeaderRowItem [descriptionItem, debitItem] = Some 1"
  by code_simp

text \<open>
  Claim C4, amended. The header row is located at the first fragment whose text contains
  one of the five names \<open>Date and Time\<close>, \<open>Reference No\<close>, \<open>Debit\<close>,
  \<open>Credit\<close>, \<open>Balance\<close> (this is \<open>isHeaderRowItem\<close>); the columns are then the
  fragments of that row that contain one of the six names. The fallback columns are
  substituted if and only if no fragment of the page contains one of the five names.
\<close>

theorem header_row_detection:
  "(findIndex isHeaderRowItem items = None \<longleftrightarrow>
      (\<forall>item \<in> set items.
          \<not> str_includes (itemStr item) (lit ''Date and Time'')
        \<and> \<not> str_includes (itemStr item) (lit ''Reference No'')
        \<and> \<not> str_includes (itemStr item) (lit ''Debit'')
        \<and> \<not> str_includes (itemStr item) (lit ''Credit'')
        \<and> \<not> str_includes (itemStr item) (lit ''Balance'')))
   \<and> (findIndex isHeaderRowItem items = None \<longrightarrow>
        columnPositions (identifyColumnPositions items s) = defaultPositions)
   \<and> (\<forall>i. findIndex isHeaderRowItem items = Some i \<longrightarrow>
          i < length items \<and> isHeaderRowItem (items ! i)
        \<and> (\<forall>j<i. \<not> isHeaderRowItem (items ! j))
        \<and> columnPositions (identifyColumnPositions items s) =
            map columnOfItem (headerItemsOf items i))"
proof -
  have "findIndex isHeaderRowItem items = None \<longleftrightarrow>
      (\<forall>item \<in> set items.
          \<not> str_includes (itemStr item) (lit ''Date and Time'')
        \<and> \<not> str_includes (itemStr item) (lit ''Reference No'')
        \<and> \<not> str_includes (itemStr item) (lit ''Debit'')
        \<and> \<not> str_includes (itemStr item) (lit ''Credit'')
        \<and> \<not> str_includes (itemStr item) (lit ''Balance''))"
    unfolding findIndex_None isHeaderRowItem_def by blast
  moreover have "findIndex isHeaderRowItem items = None \<longrightarrow>
        columnPositions (identifyColumnPositions items s) = defaultPositions"
    by (simp add: identifyColumnPositions_def)
  moreover have "i < length items \<and> isHeaderRowItem (items ! i)
        \<and> (\<forall>j<i. \<not> isHeaderRowItem (items ! j))
        \<and> columnPositions (identifyColumnPositions items s) =
            map columnOfItem (headerItemsOf items i)"
    if "findIndex isHeaderRowItem items = Some i" for i
    using findIndex_Some [OF that] that by (simp add: identifyColumnPositions_def)
  ultimately show ?thesis by blast
qed

theorem header_row_detection_witness:
  "findIndex isHeaderRowItem [descriptionItem, debitItem] = Some 1
   \<and> isHeaderRowItem ([descriptionItem, debitItem] ! 1)
   \<and> \<not> isHeaderRowItem ([descriptionItem, debitItem] ! 0)
   \<and> map colName (columnPositions (identifyColumnPositions [descriptionItem, debitItem] newParser))
       = [lit ''Debit'']
   \<and> findIndex isHeaderRowItem [descriptionItem] = None
   \<and> columnPositions (identifyColumnPositions [descriptionItem] newParser) = defaultPositions"
proof -
  have a: "findIndex isHeaderRowItem [descriptionItem, debitItem] = Some 1" by code_simp
  have b: "findIndex isHeaderRowItem [descriptionItem] = None" by code_simp
  have c: "map colName (map columnOfItem (headerItemsOf [descriptionItem, debitItem] 1)) = [lit ''Debit'']"
    by code_simp
  from header_row_detection [of "[descriptionItem, debitItem]" newParser] a
  have 1: "isHeaderRowItem ([descriptionItem, debitItem] ! 1)
      \<and> (\<forall>j<1. \<not> isHeaderRowItem ([descriptionItem, debitItem] ! j))
      \<and> columnPositions (identifyColumnPositions [descriptionItem, debitItem] newParser) =
            map columnOfItem (headerItemsOf [descriptionItem, debitItem] 1)"
    by blast
  from header_row_detection [of "[descriptionItem]" newParser] b
  have 2: "columnPositions (identifyColumnPositions [descriptionItem] newParser) = defaultPositions"
    by blast
  from 1 2 a b c show ?thesis by simp
qed


section \<open>The partition point of a row\<close>

text \<open>
  Claim C5 says that a row is split at the \<open>minX\<close> of the Debit column whenever there
  is such a column, and at 500 only when there is none. The code reads the partition point
  with \<open>debitColumn?.minX || 500\<close>, and \<open>||\<close> also takes 500 when \<open>minX\<close> is 0,
  which is the \<open>minX\<close> of the leftmost column. On a page whose header row is
  \<open>Debit\<close>, \<open>Credit\<close>, \<open>Balance\<close>, the Debit column has \<open>minX\<close> 0, the
  partition point is 500, every fragment of the dated row is a front item, and no numeric
  entry is emitted; a split at 0 would have made them all back items.
\<close>

theorem debit_minX_zero_partitions_at_500:
  "map colName debitFirstColumns = [lit ''Debit'', lit ''Credit'', lit ''Balance'']
   \<and> map_option minX (find (\<lambda>col. colName col = lit ''Debit'') debitFirstColumns) = Some (Some 0)
   \<and> debitXOf debitFirstColumns = 500
   \<and> clustersOf debitFirstPage ! 1 = debitFirstRow
   \<and> frontItemsOf (debitXOf debitFirstColumns) debitFirstRow = debitFirstRow
   \<and> backItemsOf (debitXOf debitFirstColumns) debitFirstRow = []
   \<and> backItemsOf 0 debitFirstRow = debitFirstRow
   \<and> lineStep debitFirstColumns debitFirstRow (0, []) = (0, [])
   \<and> fst (parse newParser (Document [PageItems debitFirstPage])) = Inr []"
  by code_simp

theorem debit_minX_zero_partitions_at_500_witness:
  "map_option minX (find (\<lambda>col. colName col = lit ''Debit'') debitFirstColumns) = Some (Some 0)
   \<and> debitXOf debitFirstColumns = 500
   \<and> lineStep debitFirstColumns debitFirstRow (0, []) = (0, [])"
  using debit_minX_zero_partitions_at_500 by simp

section \<open>The description of a transaction\<close>

text \<open>
  Claim C6 as stated fails: the lazy group \<open>(.+?)\<close> ends at the first place where three
  white space characters are followed by thirteen digits, and the dot matches a space, so
  a description whose text has a run of six spaces inside keeps it.
\<close>

theorem description_with_three_spaces:
  "fst (parse newParser (Document [PageItems spacedPage])) = Inr [spacedTransaction]
   \<and> str_includes (description spacedTransaction) (lit ''   '')"
  by code_simp

lemma digitsN_append:
  "digitsN n u = Some r \<Longrightarrow> digitsN n (u @ v) = Some (r @ v)"
  by (induction n u rule: digitsN.induct) (auto split: if_splits)

lemma spacesN_append:
  "spacesN n u = Some r \<Longrightarrow> spacesN n (u @ v) = Some (r @ v)"
  by (induction n u rule: spacesN.induct) (auto split: if_splits)

lemma matchTail_append:
  assumes "matchTail u = Some (g, r)"
  shows "matchTail (u @ v) = Some (g, r @ v)"
proof -
  from assms obtain r1 where s: "spacesN 3 u = Some r1" and d: "digitsN 13 r1 = Some r"
    and g: "g = take 13 r1"
    by (auto simp: matchTail_def split: option.splits)
  from d have "13 \<le> length r1" by (auto dest: digitsN_length)
  with g have "take 13 (r1 @ v) = g" by simp
  with spacesN_append [OF s, of v] digitsN_append [OF d, of v] show ?thesis
    by (simp add: matchTail_def)
qed

lemma spacesN_starts_with_space:
  "spacesN n s = Some r \<Longrightarrow> 0 < n \<Longrightarrow> s \<noteq> [] \<and> isWhiteSpace (hd s)"
  by (cases n; cases s) (auto split: if_splits)

lemma matchTail_starts_with_space:
  assumes "matchTail s \<noteq> None"
  shows "s \<noteq> [] \<and> isWhiteSpace (hd s)"
proof -
  from assms obtain r where "spacesN 3 s = Some r"
    by (auto simp: matchTail_def split: option.splits)
  then show ?thesis by (rule spacesN_starts_with_space) simp
qed

lemma matchTail_Nil [simp]: "matchTail [] = None"
  using matchTail_starts_with_space [of "[]"] by blast

lemma hasSeparatorAndReference_iff:
  "hasSeparatorAndReference d \<longleftrightarrow> (\<exists>pre suf. d = pre @ suf \<and> matchTail suf \<noteq> None)"
proof (induction d)
  case Nil
  then show ?case by simp
next
  case (Cons c cs)
  show ?case
  proof
    assume "hasSeparatorAndReference (c # cs)"
    then consider "matchTail (c # cs) \<noteq> None" | "hasSeparatorAndReference cs" by auto
    then show "\<exists>pre suf. c # cs = pre @ suf \<and> matchTail suf \<noteq> None"
    proof cases
      case 1
      then show ?thesis by (intro exI [of _ "[]"] exI [of _ "c # cs"]) simp
    next
      case 2
      with Cons.IH obtain pre suf where "cs = pre @ suf" "matchTail suf \<noteq> None" by blast
      then show ?thesis by (intro exI [of _ "c # pre"] exI [of _ suf]) simp
    qed
  next
    assume "\<exists>pre suf. c # cs = pre @ suf \<and> matchTail suf \<noteq> None"
    then obtain pre suf where ps: "c # cs = pre @ suf" and m: "matchTail suf \<noteq> None" by blast
    show "hasSeparatorAndReference (c # cs)"
    proof (cases pre)
      case Nil
      with ps have "suf = c # cs" by simp
      with m show ?thesis by simp
    next
      case (Cons p pre')
      with ps have "cs = pre' @ suf" by simp
      with m Cons.IH show ?thesis by auto
    qed
  qed
qed

lemma lazyAny_shortest:
  "lazyAny acc s = Some (g2, g3, rest) \<Longrightarrow>
   \<exists>g tl. g2 = acc @ g \<and> g \<noteq> [] \<and> s = g @ tl \<and> matchTail tl = Some (g3, rest)
          \<and> (\<forall>j. 0 < j \<and> j < length g \<longrightarrow> matchTail (drop j s) = None)"
proof (induction acc s rule: lazyAny.induct)
  case (1 acc)
  then show ?case by simp
next
  case (2 acc c cs)
  from "2.prems" have nt: "\<not> isLineTerminator c" by (auto split: if_splits)
  show ?case
  proof (cases "matchTail cs")
    case (Some p)
    with "2.prems" nt have "g2 = acc @ [c]" "matchTail cs = Some (g3, rest)"
      by (auto split: prod.splits)
    then show ?thesis
      by (intro exI [of _ "[c]"] exI [of _ cs]) simp
  next
    case None
    with "2.prems" nt have "lazyAny (acc @ [c]) cs = Some (g2, g3, rest)" by simp
    from "2.IH" [OF nt None this] obtain g tl where
      g: "g2 = (acc @ [c]) @ g" "g \<noteq> []" "cs = g @ tl" "matchTail tl = Some (g3, rest)"
      and short: "\<forall>j. 0 < j \<and> j < length g \<longrightarrow> matchTail (drop j cs) = None"
      by blast
    have "matchTail (drop j (c # cs)) = None" if "0 < j" "j < length (c # g)" for j
    proof (cases "j = 1")
      case True
      with None show ?thesis by simp
    next
      case False
      with that have "0 < j - 1" "j - 1 < length g" by simp_all
      with short have "matchTail (drop (j - 1) cs) = None" by blast
      with that show ?thesis by (simp add: drop_Cons')
    qed
    with g show ?thesis
      by (intro exI [of _ "c # g"] exI [of _ tl]) simp
  qed
qed

lemma trim_decompose:
  "\<exists>ws. s = takeWhile isWhiteSpace s @ trim s @ ws"
proof -
  let ?h = "dropWhile isWhiteSpace s"
  have "rev ?h = takeWhile isWhiteSpace (rev ?h) @ dropWhile isWhiteSpace (rev ?h)"
    by simp
  then have "rev (rev ?h) =
      rev (dropWhile isWhiteSpace (rev ?h)) @ rev (takeWhile isWhiteSpace (rev ?h))"
    by (metis rev_append)
  then have "?h = trim s @ rev (takeWhile isWhiteSpace (rev ?h))"
    by (simp add: trim_def)
  moreover have "s = takeWhile isWhiteSpace s @ ?h" by simp
  ultimately show ?thesis by metis
qed

lemma trim_hd: "trim s \<noteq> [] \<Longrightarrow> \<not> isWhiteSpace (hd (trim s))"
proof -
  assume ne: "trim s \<noteq> []"
  let ?h = "dropWhile isWhiteSpace s"
  from trim_decompose [of s] obtain ws where s: "s = takeWhile isWhiteSpace s @ trim s @ ws"
    by blast
  have "s = takeWhile isWhiteSpace s @ ?h" by simp
  with s have "takeWhile isWhiteSpace s @ ?h = takeWhile isWhiteSpace s @ (trim s @ ws)"
    by simp
  then have h: "?h = trim s @ ws" by (simp only: same_append_eq)
  with ne have "?h \<noteq> []" by simp
  then have "\<not> isWhiteSpace (hd ?h)" by (rule hd_dropWhile)
  with h ne show ?thesis by simp
qed

lemma lazyAny_description:
  assumes "lazyAny [] s = Some (g2, g3, rest)"
  shows "\<not> hasSeparatorAndReference (trim g2)"
proof
  assume "hasSeparatorAndReference (trim g2)"
  then obtain pre suf where d: "trim g2 = pre @ suf" and m: "matchTail suf \<noteq> None"
    unfolding hasSeparatorAndReference_iff by blast
  from lazyAny_shortest [OF assms] obtain g0 tl where
    g0: "g2 = [] @ g0" "s = g0 @ tl"
      "\<forall>j. 0 < j \<and> j < length g0 \<longrightarrow> matchTail (drop j s) = None"
    by blast
  then have s: "s = g2 @ tl"
    and short: "\<And>j. 0 < j \<Longrightarrow> j < length g2 \<Longrightarrow> matchTail (drop j s) = None"
    by simp_all
  from trim_decompose [of g2] obtain ws where
    g2: "g2 = takeWhile isWhiteSpace g2 @ trim g2 @ ws" by blast
  define lead where "lead = takeWhile isWhiteSpace g2 @ pre"
  from m obtain g r where mt: "matchTail suf = Some (g, r)" by auto
  from matchTail_starts_with_space [OF m] have suf: "suf \<noteq> []" "isWhiteSpace (hd suf)"
    by simp_all
  have g2': "g2 = lead @ suf @ ws"
    by (subst g2) (simp add: d lead_def)
  have split: "s = lead @ (suf @ (ws @ tl))"
    by (subst s, subst g2') simp
  have "drop (length lead) s = suf @ (ws @ tl)"
    by (subst split) simp
  with matchTail_append [OF mt, of "ws @ tl"]
  have hit: "matchTail (drop (length lead) s) \<noteq> None" by simp
  have "length g2 = length lead + length suf + length ws"
    by (subst g2') simp
  with suf have lt: "length lead < length g2" by (cases suf) simp_all
  show False
  proof (cases "length lead = 0")
    case False
    then have "0 < length lead" by simp
    from short [OF this lt] hit show False by simp
  next
    case True
    then have "pre = []" by (simp add: lead_def)
    with d suf have "trim g2 \<noteq> []" "isWhiteSpace (hd (trim g2))" by simp_all
    with trim_hd [of g2] show False by simp
  qed
qed


lemma matchHeader_description:
  "matchHeader s = Some (g1, g2, g3, rest) \<Longrightarrow> \<not> hasSeparatorAndReference (trim g2)"
  by (auto simp: matchHeader_def split: option.splits dest: lazyAny_description)

lemma execHeader_description:
  "execHeader s = Some (g1, g2, g3, rest) \<Longrightarrow> \<not> hasSeparatorAndReference (trim g2)"
proof (induction s)
  case Nil
  then show ?case by simp
next
  case (Cons c cs)
  show ?case
  proof (cases "matchHeader (c # cs)")
    case None
    with Cons show ?thesis by simp
  next
    case (Some m)
    with Cons.prems have "matchHeader (c # cs) = Some (g1, g2, g3, rest)" by simp
    then show ?thesis by (rule matchHeader_description)
  qed
qed

lemma headerLoop_descriptions:
  "\<forall>e \<in> set acc. \<not> hasSeparatorAndReference (h_description e) \<Longrightarrow>
   \<forall>e \<in> set (headerLoop buf n acc). \<not> hasSeparatorAndReference (h_description e)"
proof (induction buf n acc rule: headerLoop.induct)
  case (1 buf entryNo headerEntries)
  show ?case
  proof (cases "execHeader buf")
    case None
    with "1.prems" show ?thesis by (simp add: headerLoop_None)
  next
    case (Some m)
    obtain g1 g2 g3 rest where m: "m = (g1, g2, g3, rest)" by (cases m) auto
    let ?e = "\<lparr>h_entryNo = entryNo + 1, h_dateTime = trim g1,
                h_description = trim g2, h_referenceNo = trim g3\<rparr>"
    have step: "headerLoop buf entryNo headerEntries =
        headerLoop rest (entryNo + 1) (headerEntries @ [?e])"
      using Some m by (simp add: headerLoop_Some)
    have "\<not> hasSeparatorAndReference (trim g2)"
      using Some m execHeader_description [of buf g1 g2 g3 rest] by simp
    with "1.prems" have "\<forall>e \<in> set (headerEntries @ [?e]). \<not> hasSeparatorAndReference (h_description e)"
      by simp
    from "1.IH" [OF Some m [symmetric] refl refl this] show ?thesis
      unfolding step .
  qed
qed

lemma mergeEntries_description:
  assumes "t \<in> set (mergeEntries hs ns)"
  shows "\<exists>h \<in> set hs. description t = h_description h"
proof -
  from assms obtain i where i: "i < length (mergeEntries hs ns)" and t: "t = mergeEntries hs ns ! i"
    by (metis in_set_conv_nth)
  from i have lt: "i < min (length hs) (length ns)" by (simp add: mergeEntries_length)
  then have "description t = h_description (hs ! i)"
    unfolding t by (simp add: mergeEntries_nth)
  moreover from lt have "hs ! i \<in> set hs" by simp
  ultimately show ?thesis by blast
qed

text \<open>
  Claim C6, amended. The description of a transaction returned by \<open>parse\<close> never
  contains the separator followed at once by a reference number, that is three white space
  characters followed at once by thirteen digits, for any document text.
\<close>

theorem description_never_holds_separator_and_reference:
  assumes "fst (parse s doc) = Inr txs" and "t \<in> set txs"
  shows "\<not> hasSeparatorAndReference (description t)"
proof -
  let ?hs = "extractHeaderEntriesFromPageTexts (snd (parse s doc))"
  from parse_success [OF assms(1)] assms(2)
  have "t \<in> set (mergeEntries ?hs (numericEntries (snd (parse s doc))))" by simp
  then obtain h where h: "h \<in> set ?hs" "description t = h_description h"
    using mergeEntries_description by blast
  have "\<forall>e \<in> set ?hs. \<not> hasSeparatorAndReference (h_description e)"
    unfolding extractHeaderEntriesFromPageTexts_def
    by (rule headerLoop_descriptions) simp
  with h show ?thesis by simp
qed

theorem description_never_holds_separator_and_reference_witness:
  "fst (parse newParser (Document [PageItems spacedPage])) = Inr [spacedTransaction]
   \<and> description spacedTransaction = lit ''Sent to      Juan''
   \<and> \<not> hasSeparatorAndReference (description spacedTransaction)"
proof -
  have run: "fst (parse newParser (Document [PageItems spacedPage])) = Inr [spacedTransaction]"
    by code_simp
  have "description spacedTransaction = lit ''Sent to      Juan''"
    by (simp add: spacedTransaction_def)
  with description_never_holds_separator_and_reference [OF run, of spacedTransaction] run
  show ?thesis by simp
qed


section \<open>Ordinals\<close>

lemma lineStep_cases:
  "lineStep cols line st = st
   \<or> (\<exists>e. n_entryNo e = fst st + 1 \<and> lineStep cols line st = (fst st + 1, snd st @ [e]))"
  by (simp add: lineStep_def Let_def)

lemma lineStep_countsFrom1:
  assumes "countsFrom1 st"
  shows "countsFrom1 (lineStep cols line st)"
  using lineStep_cases [of cols line st]
proof
  assume "lineStep cols line st = st"
  with assms show ?thesis by simp
next
  assume "\<exists>e. n_entryNo e = fst st + 1 \<and> lineStep cols line st = (fst st + 1, snd st @ [e])"
  then obtain e where e: "n_entryNo e = fst st + 1"
    and step: "lineStep cols line st = (fst st + 1, snd st @ [e])" by blast
  from assms have n: "fst st = length (snd st)"
    and m: "map n_entryNo (snd st) = [1..<Suc (length (snd st))]"
    by (simp_all add: countsFrom1_def)
  have "[1..<Suc (Suc (length (snd st)))] = [1..<Suc (length (snd st))] @ [Suc (length (snd st))]"
    by (rule upt_Suc_append) simp
  with e n m show ?thesis
    unfolding step countsFrom1_def by simp
qed

lemma foldl_lineStep_countsFrom1:
  "countsFrom1 st \<Longrightarrow> countsFrom1 (foldl (\<lambda>st line. lineStep cols line st) st clusters)"
  by (induction clusters arbitrary: st) (simp_all add: lineStep_countsFrom1)

lemma extractNumeric_ordinals:
  assumes "map n_entryNo (numericEntries s) = [1..<Suc (length (numericEntries s))]"
  shows "map n_entryNo (numericEntries (extractNumericEntriesFromLineItems items s)) =
         [1..<Suc (length (numericEntries (extractNumericEntriesFromLineItems items s)))]"
proof -
  have "countsFrom1 (length (numericEntries s), numericEntries s)"
    using assms by (simp add: countsFrom1_def)
  then have "countsFrom1 (foldl (\<lambda>st line. lineStep (columnPositions s) line st)
      (length (numericEntries s), numericEntries s) (clustersOf items))"
    by (rule foldl_lineStep_countsFrom1)
  then show ?thesis
    by (simp add: countsFrom1_def extractNumericEntriesFromLineItems_def)
qed

lemma processPage_ordinals:
  assumes "map n_entryNo (numericEntries s) = [1..<Suc (length (numericEntries s))]"
  shows "map n_entryNo (numericEntries (processPage i items s)) =
         [1..<Suc (length (numericEntries (processPage i items s)))]"
  unfolding processPage_def Let_def
  by (rule extractNumeric_ordinals) (use assms in \<open>simp del: upt_Suc\<close>)

lemma pageLoop_ordinals:
  "map n_entryNo (numericEntries s) = [1..<Suc (length (numericEntries s))] \<Longrightarrow>
   map n_entryNo (numericEntries (snd (pageLoop i pages s))) =
     [1..<Suc (length (numericEntries (snd (pageLoop i pages s))))]"
proof (induction i pages s rule: pageLoop.induct)
  case (3 i items pages s)
  then show ?case by (simp add: processPage_ordinals)
qed simp_all

lemma headerLoop_ordinals:
  "\<exists>k. length (headerLoop buf n acc) = length acc + k
       \<and> map h_entryNo (headerLoop buf n acc) = map h_entryNo acc @ [Suc n ..< Suc n + k]"
proof (induction buf n acc rule: headerLoop.induct)
  case (1 buf entryNo headerEntries)
  show ?case
  proof (cases "execHeader buf")
    case None
    then show ?thesis by (simp add: headerLoop_None)
  next
    case (Some m)
    obtain g1 g2 g3 rest where m: "m = (g1, g2, g3, rest)" by (cases m) auto
    let ?e = "\<lparr>h_entryNo = entryNo + 1, h_dateTime = trim g1,
                h_description = trim g2, h_referenceNo = trim g3\<rparr>"
    let ?r = "headerLoop rest (entryNo + 1) (headerEntries @ [?e])"
    have step: "headerLoop buf entryNo headerEntries = ?r"
      using Some m by (simp add: headerLoop_Some)
    from "1.IH" [OF Some m [symmetric] refl refl]
    obtain k where len: "length ?r = length (headerEntries @ [?e]) + k"
      and ords: "map h_entryNo ?r =
        map h_entryNo (headerEntries @ [?e]) @ [Suc (entryNo + 1) ..< Suc (entryNo + 1) + k]"
      by blast
    have "[Suc entryNo ..< Suc entryNo + Suc k] =
          Suc entryNo # [Suc (Suc entryNo) ..< Suc (Suc entryNo) + k]"
      by (simp add: upt_rec)
    with len ords have "length ?r = length headerEntries + Suc k
       \<and> map h_entryNo ?r = map h_entryNo headerEntries @ [Suc entryNo ..< Suc entryNo + Suc k]"
      by simp
    then show ?thesis unfolding step by blast
  qed
qed

text \<open>
  Claim C7. After a call of \<open>parse\<close> that loaded the document, the ordinals of the
  numeric entries, in the order of emission over all pages, are 1, 2, 3 and so on up to
  their number, and so are the ordinals of the header entries in the order of the matches.
\<close>

theorem ordinals_count_from_one:
  "map n_entryNo (numericEntries (snd (parse s (Document pages)))) =
     [1..<Suc (length (numericEntries (snd (parse s (Document pages)))))]
   \<and> map h_entryNo (extractHeaderEntriesFromPageTexts (snd (parse s (Document pages)))) =
     [1..<Suc (length (extractHeaderEntriesFromPageTexts (snd (parse s (Document pages)))))]"
proof -
  let ?s0 = "s\<lparr>transactions := [], pageTexts := [], numericEntries := []\<rparr>"
  have "map n_entryNo (numericEntries (snd (pageLoop 1 pages ?s0))) =
     [1..<Suc (length (numericEntries (snd (pageLoop 1 pages ?s0))))]"
    by (rule pageLoop_ordinals) simp
  moreover have "numericEntries (snd (parse s (Document pages))) =
      numericEntries (snd (pageLoop 1 pages ?s0))"
    by (cases "pageLoop 1 pages ?s0"; cases "fst (pageLoop 1 pages ?s0)")
       (simp_all add: parse_Document_ok parse_Document_fail)
  ultimately have num: "map n_entryNo (numericEntries (snd (parse s (Document pages)))) =
     [1..<Suc (length (numericEntries (snd (parse s (Document pages)))))]" by simp
  have "map h_entryNo (headerLoop buf 0 []) = [1..<Suc (length (headerLoop buf 0 []))]" for buf
    using headerLoop_ordinals [of buf 0 "[]"] by auto
  with num show ?thesis by (simp add: extractHeaderEntriesFromPageTexts_def)
qed

section \<open>CSV serialisation\<close>










section \<open>Failure of the PDF library\<close>



lemma parse_Document_transactions:
  assumes "fst (parse s (Document pages)) = Inl e"
  shows "transactions (snd (parse s (Document pages))) = []"
proof -
  let ?s0 = "s\<lparr>transactions := [], pageTexts := [], numericEntries := []\<rparr>"
  obtain r s1 where run: "pageLoop 1 pages ?s0 = (r, s1)"
    by (cases "pageLoop 1 pages ?s0")
  have "transactions s1 = []"
    using pageLoop_transactions [of 1 pages ?s0] run by simp
  with run assms show ?thesis
    by (cases r) (simp_all add: parse_Document_ok parse_Document_fail)
qed




section \<open>The accessors before the first successful parse\<close>

lemma beforeSuccess_step:
  "beforeSuccess s \<Longrightarrow> fst (parse s doc) = Inl e \<Longrightarrow> beforeSuccess (snd (parse s doc))"
  using failedParse [of s doc e "snd (parse s doc)"] by (metis prod.collapse)

text \<open>
  Claim C10 as stated fails: a call of \<open>parse\<close> on a new parser that decodes the first
  page and fails on the second is not a successful call, and after it \<open>getPageTexts\<close>
  returns the text of the first page.
\<close>

theorem failed_parse_keeps_page_texts:
  "beforeSuccess (snd (parse newParser failingDocument))
   \<and> getPageTexts (snd (parse newParser failingDocument))
       = [lit ''2024-01-15 10:30 AM   Pay   1234567890123 5.00'']"
proof -
  have "fst (parse newParser failingDocument) = Inl (wrapError (lit ''bad page''))"
    by code_simp
  then have "beforeSuccess (snd (parse newParser failingDocument))"
    by (rule beforeSuccess_step [OF constructed])
  moreover have "getPageTexts (snd (parse newParser failingDocument))
       = [lit ''2024-01-15 10:30 AM   Pay   1234567890123 5.00'']"
    by code_simp
  ultimately show ?thesis by simp
qed

lemma beforeSuccess_transactions: "beforeSuccess s \<Longrightarrow> transactions s = []"
proof (induction rule: beforeSuccess.induct)
  case constructed
  then show ?case by (simp add: newParser_def)
next
  case (failedParse s doc e s')
  show ?case
  proof (cases doc)
    case (LoadError c)
    with failedParse show ?thesis by simp
  next
    case (Document pages)
    with failedParse parse_Document_transactions [of s pages e] show ?thesis by simp
  qed
qed

text \<open>
  Claim C10, amended. Right after construction \<open>getTransactions\<close> and
  \<open>getPageTexts\<close> return the empty list and \<open>toCSV\<close> returns
  \<open>No transactions found\<close>. After any number of failed calls of \<open>parse\<close> and no
  successful one, \<open>getTransactions\<close> still returns the empty list and \<open>toCSV\<close>
  still returns that text. A call that fails at the load of the document leaves the parser
  as it was, \<open>getPageTexts\<close> included.
\<close>

theorem accessors_before_success:
  "getTransactions newParser = [] \<and> getPageTexts newParser = []
   \<and> toCSV newParser = lit ''No transactions found''
   \<and> (\<forall>s. beforeSuccess s \<longrightarrow>
         getTransactions s = [] \<and> toCSV s = lit ''No transactions found'')
   \<and> (\<forall>s c. snd (parse s (LoadError c)) = s)"
  using beforeSuccess_transactions
  by (simp add: getTransactions_def getPageTexts_def toCSV_def newParser_def)

theorem accessors_before_success_witness:
  "beforeSuccess (snd (parse newParser failingDocument))
   \<and> getTransactions (snd (parse newParser failingDocument)) = []
   \<and> toCSV (snd (parse newParser failingDocument)) = lit ''No transactions found''"
proof -
  have "fst (parse newParser failingDocument) = Inl (wrapError (lit ''bad page''))"
    by code_simp
  then have "beforeSuccess (snd (parse newParser failingDocument))"
    by (rule beforeSuccess_step [OF constructed])
  with accessors_before_success show ?thesis by blast
qed


end
